theory Spec2Isabelle
  imports Complex_Main "HOL-Library.Multiset"
begin

section \<open>Data model of \<^verbatim>\<open>src/lib/store.ts\<close>\<close>

text \<open>
  The TypeScript interface \<^verbatim>\<open>Photo\<close>, field by field. A \<^verbatim>\<open>T | null\<close> field is an
  \<open>option\<close>. Integral numbers (ids, sizes, pixel counts) are \<open>int\<close>; the two GPS
  coordinates are \<open>real\<close>. The field \<^verbatim>\<open>id\<close> is called \<open>pid\<close> here, because \<open>id\<close> is the
  identity function of HOL.
\<close>

record Photo =
  pid :: int
  path :: string
  filename :: string
  folderRel :: string
  width :: "int option"
  height :: "int option"
  takenAt :: "string option"
  modifiedAt :: string
  sizeBytes :: int
  mediaType :: string
  source :: string
  isFavorite :: bool
  isDeleted :: bool
  deletedAt :: "string option"
  cameraMake :: "string option"
  cameraModel :: "string option"
  lens :: "string option"
  iso :: "int option"
  shutterSpeed :: "string option"
  aperture :: "string option"
  focalLength :: "string option"
  gpsLat :: "real option"
  gpsLon :: "real option"

text \<open>\<^verbatim>\<open>SourceDirectory\<close>; its \<^verbatim>\<open>id\<close> and \<^verbatim>\<open>name\<close> carry a prefix for the same reason.\<close>

record SourceDirectory =
  sd_id :: int
  sd_name :: string
  rootPath :: string
  photoCount :: int

record FilterState =
  selectedFolder :: "string option"
  selectedYear :: "int option"
  selectedMonth :: "int option"
  selectedMediaTypes :: "string list"

datatype SortBy = DateDesc | DateAsc | NameAsc | NameDesc | SizeDesc | SizeAsc

datatype SidebarSection = All | Recents | Favorites | Videos | Source | Trash | Album | Tag

text \<open>
  The writable stores the operations below read and write, gathered in one record that is
  passed along explicitly. \<^verbatim>\<open>selectedPhotoIds\<close> is a \<^verbatim>\<open>Set<number>\<close>.
\<close>

record Store =
  photos :: "Photo list"
  selectedPhoto :: "Photo option"
  hasMorePhotos :: bool
  isLoadingMore :: bool
  totalPhotoCount :: int
  sourceDirectories :: "SourceDirectory list"
  selectedPhotoIds :: "int set"
  isMultiSelectMode :: bool

definition PAGE_SIZE :: nat where
  "PAGE_SIZE = 100"

definition MAX_PHOTOS_IN_MEMORY :: nat where
  "MAX_PHOTOS_IN_MEMORY = 2000"

text \<open>The stores as the module initialises them.\<close>

definition initialStore :: Store where
  "initialStore =
     \<lparr> photos = [], selectedPhoto = None, hasMorePhotos = True, isLoadingMore = False,
       totalPhotoCount = 0, sourceDirectories = [], selectedPhotoIds = {},
       isMultiSelectMode = False \<rparr>"

section \<open>Calls to the backend\<close>

text \<open>
  \<^verbatim>\<open>await invoke(cmd, args)\<close> either resolves with a value or rejects with an error, which
  the surrounding \<^verbatim>\<open>try\<close>/\<^verbatim>\<open>catch\<close> receives. The outcome of one call is a sum: \<open>Inl\<close> is
  the rejection (its message), \<open>Inr\<close> the resolved value. A command that resolves with an
  array may also resolve with \<^verbatim>\<open>null\<close>, which the code tests for (\<^verbatim>\<open>!nextPage\<close>,
  \<^verbatim>\<open>firstPage || []\<close>), so a page is an \<open>option\<close>.

  The command \<^verbatim>\<open>get_all_photos\<close> is a parameter of the operations that call it: a function
  of the two arguments \<^verbatim>\<open>limit\<close> and \<^verbatim>\<open>offset\<close> the code sends. Each operation is modelled
  from its call to its return as one state transformer; what other event handlers do to
  the stores while the call is pending is outside the model.
\<close>

type_synonym 'a response = "string + 'a"

type_synonym page_command = "nat \<Rightarrow> nat \<Rightarrow> Photo list option response"

section \<open>Pagination\<close>

text \<open>
  The updater passed to \<^verbatim>\<open>photos.update\<close> in \<^verbatim>\<open>loadMorePhotos\<close>:
  \<^verbatim>\<open>combined.slice(combined.length - MAX_PHOTOS_IN_MEMORY)\<close> keeps the elements from that
  index on.
\<close>

definition appendPage :: "Photo list \<Rightarrow> Photo list \<Rightarrow> Photo list" where
  "appendPage list nextPage =
     (let combined = list @ nextPage in
      if length combined > MAX_PHOTOS_IN_MEMORY
      then drop (length combined - MAX_PHOTOS_IN_MEMORY) combined
      else combined)"

text \<open>
  \<^verbatim>\<open>loadMorePhotos\<close>: the guard, the flag, the call with the cache length as offset, the
  three outcomes of the \<^verbatim>\<open>try\<close> block (rejected, null or empty page, non-empty page), and
  the \<^verbatim>\<open>finally\<close> block.
\<close>

definition loadMorePhotos :: "page_command \<Rightarrow> Store \<Rightarrow> Store" where
  "loadMorePhotos get_all_photos st =
     (if isLoadingMore st \<or> \<not> hasMorePhotos st then st
      else
        let st1 = st\<lparr>isLoadingMore := True\<rparr>;
            currentCount = length (photos st1);
            st2 = (case get_all_photos PAGE_SIZE currentCount of
                     Inl err \<Rightarrow> st1
                   | Inr None \<Rightarrow> st1\<lparr>hasMorePhotos := False\<rparr>
                   | Inr (Some nextPage) \<Rightarrow>
                       if length nextPage = 0 then st1\<lparr>hasMorePhotos := False\<rparr>
                       else st1\<lparr>photos := appendPage (photos st1) nextPage,
                                hasMorePhotos := (length nextPage \<ge> PAGE_SIZE)\<rparr>)
        in st2\<lparr>isLoadingMore := False\<rparr>)"

text \<open>A sequence of calls of \<^verbatim>\<open>loadMorePhotos\<close>, each answered by its own backend.\<close>

fun loadMoreSeq :: "page_command list \<Rightarrow> Store \<Rightarrow> Store" where
  "loadMoreSeq [] st = st"
| "loadMoreSeq (c # cs) st = loadMoreSeq cs (loadMorePhotos c st)"

text \<open>A backend that answers every request with the given page.\<close>

definition answering :: "Photo list \<Rightarrow> page_command" where
  "answering pg = (\<lambda>limit offset. Inr (Some pg))"

text \<open>The last \<open>n\<close> elements of a list.\<close>

definition lastN :: "nat \<Rightarrow> 'a list \<Rightarrow> 'a list" where
  "lastN n xs = drop (length xs - n) xs"

text \<open>A record that carries nothing but its id, for the scenarios.\<close>

definition mkPhoto :: "int \<Rightarrow> Photo" where
  "mkPhoto i =
     \<lparr> pid = i, path = [], filename = [], folderRel = [], width = None, height = None,
       takenAt = None, modifiedAt = [], sizeBytes = 0, mediaType = ''photo'', source = [],
       isFavorite = False, isDeleted = False, deletedAt = None, cameraMake = None,
       cameraModel = None, lens = None, iso = None, shutterSpeed = None, aperture = None,
       focalLength = None, gpsLat = None, gpsLon = None \<rparr>"

text \<open>Page \<open>k\<close> of a backing dataset whose record at fetch-index \<open>i\<close> is \<open>mkPhoto i\<close>.\<close>

definition pageOf :: "nat \<Rightarrow> Photo list" where
  "pageOf k = map (\<lambda>i. mkPhoto (int i)) [k * PAGE_SIZE ..< k * PAGE_SIZE + PAGE_SIZE]"

section \<open>The host's \<^verbatim>\<open>Date\<close> and \<^verbatim>\<open>String\<close>\<close>

text \<open>
  The code calls the JavaScript runtime: \<^verbatim>\<open>new Date(...)\<close>, \<^verbatim>\<open>getFullYear\<close>, \<^verbatim>\<open>getMonth\<close>,
  \<^verbatim>\<open>getDate\<close>, \<^verbatim>\<open>getDay\<close>, \<^verbatim>\<open>getTime\<close>, \<^verbatim>\<open>setDate\<close>, \<^verbatim>\<open>toLowerCase\<close>, \<^verbatim>\<open>includes\<close>,
  \<^verbatim>\<open>localeCompare\<close>, \<^verbatim>\<open>padStart\<close>, \<^verbatim>\<open>Array.prototype.sort\<close>. The runtime is not part of
  the repository. Its calendar arithmetic is written out below after the standard
  (ECMA-262, "Date Objects"); what the standard leaves to the implementation is a
  parameter, the record \<open>Host\<close>:
  \<^item> \<open>Date_parse\<close>: the time value \<^verbatim>\<open>new Date(s)\<close> gets for a string, \<open>None\<close> for an
    Invalid Date;
  \<^item> \<open>LocalTZA\<close>: the offset of local time, in milliseconds, at a time value that is
    UTC (\<open>True\<close>) or local (\<open>False\<close>);
  \<^item> \<open>localeCompare\<close> and \<open>toLowerCase\<close> of strings.

  A \<^verbatim>\<open>Date\<close> is its time value: \<open>Some t\<close> for \<open>t\<close> milliseconds since the epoch, \<open>None\<close>
  for \<^verbatim>\<open>NaN\<close>. A number that may be \<^verbatim>\<open>NaN\<close> is an \<open>int option\<close> in the same way.
\<close>

record Host =
  Date_parse :: "string \<Rightarrow> int option"
  LocalTZA :: "int \<Rightarrow> bool \<Rightarrow> int"
  localeCompare :: "string \<Rightarrow> string \<Rightarrow> int"
  toLowerCase :: "string \<Rightarrow> string"

type_synonym Date = "int option"

definition msPerDay :: int where
  "msPerDay = 86400000"

definition Day :: "int \<Rightarrow> int" where
  "Day t = t div msPerDay"

definition TimeWithinDay :: "int \<Rightarrow> int" where
  "TimeWithinDay t = t mod msPerDay"

definition DaysInYear :: "int \<Rightarrow> int" where
  "DaysInYear y =
     (if y mod 4 \<noteq> 0 then 365
      else if y mod 100 \<noteq> 0 then 366
      else if y mod 400 \<noteq> 0 then 365
      else 366)"

definition DayFromYear :: "int \<Rightarrow> int" where
  "DayFromYear y =
     365 * (y - 1970) + (y - 1969) div 4 - (y - 1901) div 100 + (y - 1601) div 400"

text \<open>
  \<^verbatim>\<open>YearFromTime(t)\<close> is the largest \<open>y\<close> with \<open>DayFromYear y \<le> Day t\<close>. Four hundred
  years are 146097 days, which gives an estimate that is off by one year at most.
\<close>

definition YearFromDay :: "int \<Rightarrow> int" where
  "YearFromDay d =
     (let y = 1970 + (400 * d) div 146097 in
      if d < DayFromYear y then y - 1
      else if DayFromYear (y + 1) \<le> d then y + 1
      else y)"

definition YearFromTime :: "int \<Rightarrow> int" where
  "YearFromTime t = YearFromDay (Day t)"

definition InLeapYear :: "int \<Rightarrow> int" where
  "InLeapYear t = (if DaysInYear (YearFromTime t) = 366 then 1 else 0)"

definition DayWithinYear :: "int \<Rightarrow> int" where
  "DayWithinYear t = Day t - DayFromYear (YearFromTime t)"

text \<open>The day within the year on which month \<open>m\<close> (0 to 11) starts.\<close>

definition monthStart :: "int \<Rightarrow> int \<Rightarrow> int" where
  "monthStart m leap =
     (if m = 0 then 0 else if m = 1 then 31 else if m = 2 then 59 + leap
      else if m = 3 then 90 + leap else if m = 4 then 120 + leap
      else if m = 5 then 151 + leap else if m = 6 then 181 + leap
      else if m = 7 then 212 + leap else if m = 8 then 243 + leap
      else if m = 9 then 273 + leap else if m = 10 then 304 + leap
      else 334 + leap)"

definition MonthFromTime :: "int \<Rightarrow> int" where
  "MonthFromTime t =
     (let d = DayWithinYear t; leap = InLeapYear t in
      if d < 31 then 0 else if d < 59 + leap then 1 else if d < 90 + leap then 2
      else if d < 120 + leap then 3 else if d < 151 + leap then 4
      else if d < 181 + leap then 5 else if d < 212 + leap then 6
      else if d < 243 + leap then 7 else if d < 273 + leap then 8
      else if d < 304 + leap then 9 else if d < 334 + leap then 10
      else 11)"

definition DateFromTime :: "int \<Rightarrow> int" where
  "DateFromTime t = DayWithinYear t - monthStart (MonthFromTime t) (InLeapYear t) + 1"

definition WeekDay :: "int \<Rightarrow> int" where
  "WeekDay t = (Day t + 4) mod 7"

definition LocalTime :: "Host \<Rightarrow> int \<Rightarrow> int" where
  "LocalTime h t = t + LocalTZA h t True"

definition UTC :: "Host \<Rightarrow> int \<Rightarrow> int" where
  "UTC h t = t - LocalTZA h t False"

text \<open>
  \<^verbatim>\<open>MakeDay(year, month, date)\<close>: the day number of the first of the month, plus
  \<open>date - 1\<close>; the month may lie outside 0 to 11 and carries into the year.
\<close>

definition MakeDay :: "int \<Rightarrow> int \<Rightarrow> int \<Rightarrow> int" where
  "MakeDay year month date =
     (let ym = year + month div 12; mn = month mod 12 in
      DayFromYear ym + monthStart mn (if DaysInYear ym = 366 then 1 else 0) + date - 1)"

definition MakeDate :: "int \<Rightarrow> int \<Rightarrow> int" where
  "MakeDate day time = day * msPerDay + time"

definition TimeClip :: "int \<Rightarrow> Date" where
  "TimeClip t = (if \<bar>t\<bar> > 8640000000000000 then None else Some t)"

text \<open>\<^verbatim>\<open>new Date(value)\<close> for a number.\<close>

definition newDateOfNumber :: "int option \<Rightarrow> Date" where
  "newDateOfNumber v = (case v of None \<Rightarrow> None | Some t \<Rightarrow> TimeClip t)"

text \<open>
  \<^verbatim>\<open>new Date(year, month, date)\<close>: midnight local time of that day; a year from 0 to 99
  means 1900 + year.
\<close>

definition newDateYMD :: "Host \<Rightarrow> int option \<Rightarrow> int option \<Rightarrow> int option \<Rightarrow> Date" where
  "newDateYMD h year month date =
     (case (year, month, date) of
        (Some y, Some m, Some dt) \<Rightarrow>
          (let yr = (if 0 \<le> y \<and> y \<le> 99 then 1900 + y else y) in
           TimeClip (UTC h (MakeDate (MakeDay yr m dt) 0)))
      | _ \<Rightarrow> None)"

definition getTime :: "Date \<Rightarrow> int option" where
  "getTime d = d"

definition getFullYear :: "Host \<Rightarrow> Date \<Rightarrow> int option" where
  "getFullYear h d = map_option (\<lambda>t. YearFromTime (LocalTime h t)) d"

definition getMonth :: "Host \<Rightarrow> Date \<Rightarrow> int option" where
  "getMonth h d = map_option (\<lambda>t. MonthFromTime (LocalTime h t)) d"

definition getDate :: "Host \<Rightarrow> Date \<Rightarrow> int option" where
  "getDate h d = map_option (\<lambda>t. DateFromTime (LocalTime h t)) d"

definition getDay :: "Host \<Rightarrow> Date \<Rightarrow> int option" where
  "getDay h d = map_option (\<lambda>t. WeekDay (LocalTime h t)) d"

text \<open>\<^verbatim>\<open>d.setDate(date)\<close>, returning the new time value of \<open>d\<close>.\<close>

definition setDate :: "Host \<Rightarrow> Date \<Rightarrow> int option \<Rightarrow> Date" where
  "setDate h d date =
     (case (d, date) of
        (Some u, Some dt) \<Rightarrow>
          (let t = LocalTime h u;
               newDate = MakeDate (MakeDay (YearFromTime t) (MonthFromTime t) dt) (TimeWithinDay t)
           in TimeClip (UTC h newDate))
      | _ \<Rightarrow> None)"

text \<open>Arithmetic and comparison of numbers that may be \<^verbatim>\<open>NaN\<close>.\<close>

definition num_sub :: "int option \<Rightarrow> int option \<Rightarrow> int option" where
  "num_sub a b = (case (a, b) of (Some x, Some y) \<Rightarrow> Some (x - y) | _ \<Rightarrow> None)"

definition num_mul :: "int option \<Rightarrow> int option \<Rightarrow> int option" where
  "num_mul a b = (case (a, b) of (Some x, Some y) \<Rightarrow> Some (x * y) | _ \<Rightarrow> None)"

definition num_ge :: "int option \<Rightarrow> int option \<Rightarrow> bool" where
  "num_ge a b = (case (a, b) of (Some x, Some y) \<Rightarrow> x \<ge> y | _ \<Rightarrow> False)"

definition num_eq :: "int option \<Rightarrow> int option \<Rightarrow> bool" where
  "num_eq a b = (case (a, b) of (Some x, Some y) \<Rightarrow> x = y | _ \<Rightarrow> False)"

text \<open>Truthiness of a \<^verbatim>\<open>string | null\<close> and of a \<^verbatim>\<open>number | null\<close>.\<close>

definition truthyString :: "string option \<Rightarrow> bool" where
  "truthyString s = (case s of None \<Rightarrow> False | Some v \<Rightarrow> v \<noteq> [])"

definition truthyNumber :: "int option \<Rightarrow> bool" where
  "truthyNumber n = (case n of None \<Rightarrow> False | Some v \<Rightarrow> v \<noteq> 0)"

text \<open>\<^verbatim>\<open>s.includes(q)\<close>: \<open>q\<close> occurs in \<open>s\<close> as a contiguous run.\<close>

fun startsWith :: "string \<Rightarrow> string \<Rightarrow> bool" where
  "startsWith s [] = True"
| "startsWith [] (c # q) = False"
| "startsWith (d # s) (c # q) = (d = c \<and> startsWith s q)"

fun includes_str :: "string \<Rightarrow> string \<Rightarrow> bool" where
  "includes_str [] q = (q = [])"
| "includes_str (c # s) q = (startsWith (c # s) q \<or> includes_str s q)"

text \<open>\<^verbatim>\<open>String(n)\<close> for an integral number, and for one that may be \<^verbatim>\<open>NaN\<close>.\<close>

fun showNat :: "nat \<Rightarrow> string" where
  "showNat n =
     (if n < 10 then [''0123456789'' ! n]
      else showNat (n div 10) @ [''0123456789'' ! (n mod 10)])"

definition showInt :: "int \<Rightarrow> string" where
  "showInt i = (if i < 0 then CHR ''-'' # showNat (nat (- i)) else showNat (nat i))"

definition String :: "int option \<Rightarrow> string" where
  "String v = (case v of None \<Rightarrow> ''NaN'' | Some i \<Rightarrow> showInt i)"

definition padStart :: "string \<Rightarrow> nat \<Rightarrow> char \<Rightarrow> string" where
  "padStart s n c = replicate (n - length s) c @ s"

text \<open>
  \<^verbatim>\<open>xs.sort(compareFn)\<close> on a copy. The standard asks for a stable sort, and treats a
  comparator result \<^verbatim>\<open>NaN\<close> as 0. The model is the stable insertion sort. For a comparator
  that is a consistent ordering every conforming engine returns this list. For one that is
  not (under a date sort, a date that does not parse compares as equal to everything) the
  standard leaves the order to the implementation, engines differ from each other and
  from this model there, and nothing below is stated about the order of such a list: the
  theorems speak of which records the output holds, or compare two outputs of the same
  sort.
\<close>

fun insertBy :: "('a \<Rightarrow> 'a \<Rightarrow> int option) \<Rightarrow> 'a \<Rightarrow> 'a list \<Rightarrow> 'a list" where
  "insertBy cmp x [] = [x]"
| "insertBy cmp x (y # ys) =
     (if (case cmp x y of None \<Rightarrow> 0 | Some v \<Rightarrow> v) \<le> 0 then x # y # ys
      else y # insertBy cmp x ys)"

definition sortArray :: "('a \<Rightarrow> 'a \<Rightarrow> int option) \<Rightarrow> 'a list \<Rightarrow> 'a list" where
  "sortArray cmp xs = foldr (insertBy cmp) xs []"

section \<open>The derived store \<^verbatim>\<open>filteredPhotos\<close>\<close>

text \<open>The string \<^verbatim>\<open>p.takenAt || p.modifiedAt\<close>: \<^verbatim>\<open>takenAt\<close> unless it is null or empty.\<close>

definition takenOrModified :: "Photo \<Rightarrow> string" where
  "takenOrModified p = (if truthyString (takenAt p) then the (takenAt p) else modifiedAt p)"

text \<open>\<^verbatim>\<open>new Date(p.takenAt || p.modifiedAt)\<close>.\<close>

definition effectiveDate :: "Host \<Rightarrow> Photo \<Rightarrow> Date" where
  "effectiveDate h p = Date_parse h (takenOrModified p)"

text \<open>
  The stages of the callback, in its order. Each is one \<^verbatim>\<open>if\<close> block of the source and
  maps the list \<^verbatim>\<open>filtered\<close> to its next value.
\<close>

definition sourceStage :: "SidebarSection \<Rightarrow> string option \<Rightarrow> Photo list \<Rightarrow> Photo list" where
  "sourceStage activeSection activeSource filtered =
     (if activeSection = Source \<and> truthyString activeSource
      then filter (\<lambda>p. Some (source p) = activeSource) filtered
      else filtered)"

text \<open>
  \<open>now\<close> is the time value of \<^verbatim>\<open>new Date()\<close>, the instant at which the callback runs.
\<close>

definition recentsCutoff :: "Host \<Rightarrow> int \<Rightarrow> Date" where
  "recentsCutoff h now =
     (let cutoff = Some now in
      setDate h cutoff (num_sub (getDate h cutoff) (Some 30)))"

definition sectionStage :: "Host \<Rightarrow> int \<Rightarrow> SidebarSection \<Rightarrow> Photo list \<Rightarrow> Photo list" where
  "sectionStage h now activeSection filtered =
     (if activeSection = Favorites then filter (\<lambda>p. isFavorite p) filtered
      else if activeSection = Videos then filter (\<lambda>p. mediaType p = ''video'') filtered
      else if activeSection = Recents then
        (let cutoff = recentsCutoff h now in
         filter (\<lambda>p. let date = effectiveDate h p in num_ge date cutoff) filtered)
      else filtered)"

definition searchStage :: "Host \<Rightarrow> string \<Rightarrow> Photo list \<Rightarrow> Photo list" where
  "searchStage h searchQuery filtered =
     (if searchQuery \<noteq> [] then
        (let query = toLowerCase h searchQuery in
         filter (\<lambda>p. includes_str (toLowerCase h (filename p)) query \<or>
                     includes_str (toLowerCase h (path p)) query \<or>
                     includes_str (toLowerCase h (folderRel p)) query) filtered)
      else filtered)"

definition mediaTypeStage :: "SidebarSection \<Rightarrow> FilterState \<Rightarrow> Photo list \<Rightarrow> Photo list" where
  "mediaTypeStage activeSection filters filtered =
     (if activeSection \<noteq> Videos
      then filter (\<lambda>p. List.member (selectedMediaTypes filters) (mediaType p)) filtered
      else filtered)"

definition folderStage :: "FilterState \<Rightarrow> Photo list \<Rightarrow> Photo list" where
  "folderStage filters filtered =
     (if truthyString (selectedFolder filters)
      then filter (\<lambda>p. Some (folderRel p) = selectedFolder filters) filtered
      else filtered)"

definition yearStage :: "Host \<Rightarrow> FilterState \<Rightarrow> Photo list \<Rightarrow> Photo list" where
  "yearStage h filters filtered =
     (if truthyNumber (selectedYear filters) then
        filter (\<lambda>p.
          let year = (if truthyString (takenAt p)
                      then getFullYear h (Date_parse h (the (takenAt p)))
                      else getFullYear h (Date_parse h (modifiedAt p)))
          in num_eq year (selectedYear filters)) filtered
      else filtered)"

definition monthStage :: "Host \<Rightarrow> FilterState \<Rightarrow> Photo list \<Rightarrow> Photo list" where
  "monthStage h filters filtered =
     (if selectedMonth filters \<noteq> None \<and> truthyNumber (selectedYear filters) then
        filter (\<lambda>p.
          let date = effectiveDate h p
          in num_eq (getFullYear h date) (selectedYear filters) \<and>
             num_eq (getMonth h date) (selectedMonth filters)) filtered
      else filtered)"

text \<open>The comparator of the \<^verbatim>\<open>sort\<close> call; its result is a number that may be \<^verbatim>\<open>NaN\<close>.\<close>

definition compareFn :: "Host \<Rightarrow> SortBy \<Rightarrow> Photo \<Rightarrow> Photo \<Rightarrow> int option" where
  "compareFn h sortKey a b =
     (case sortKey of
        DateDesc \<Rightarrow> num_sub (getTime (effectiveDate h b)) (getTime (effectiveDate h a))
      | DateAsc \<Rightarrow> num_sub (getTime (effectiveDate h a)) (getTime (effectiveDate h b))
      | NameAsc \<Rightarrow> Some (localeCompare h (filename a) (filename b))
      | NameDesc \<Rightarrow> Some (localeCompare h (filename b) (filename a))
      | SizeDesc \<Rightarrow> Some (sizeBytes b - sizeBytes a)
      | SizeAsc \<Rightarrow> Some (sizeBytes a - sizeBytes b))"

text \<open>
  The callback of \<^verbatim>\<open>filteredPhotos\<close>. Its six store inputs are the last six arguments;
  the host and the current instant are what it reads besides them.
\<close>

definition filteredPhotos ::
  "Host \<Rightarrow> int \<Rightarrow> Photo list \<Rightarrow> FilterState \<Rightarrow> string \<Rightarrow> SortBy \<Rightarrow> SidebarSection \<Rightarrow>
   string option \<Rightarrow> Photo list" where
  "filteredPhotos h now cache filters searchQuery sortKey activeSection activeSource =
     (let filtered = cache;
          filtered = sourceStage activeSection activeSource filtered;
          filtered = sectionStage h now activeSection filtered;
          filtered = searchStage h searchQuery filtered;
          filtered = mediaTypeStage activeSection filters filtered;
          filtered = folderStage filters filtered;
          filtered = yearStage h filters filtered;
          filtered = monthStage h filters filtered;
          filtered = sortArray (compareFn h sortKey) filtered
      in filtered)"

section \<open>The derived store \<^verbatim>\<open>groupedPhotos\<close>\<close>

record Group =
  label :: string
  dateKey :: string
  group_photos :: "Photo list"

text \<open>
  A \<^verbatim>\<open>Map\<close> iterates in insertion order, and \<^verbatim>\<open>set\<close> on a key that is present keeps the
  key's position: an association list, updated in place or extended at the end.
\<close>

fun mapSet :: "'k \<Rightarrow> 'v \<Rightarrow> ('k \<times> 'v) list \<Rightarrow> ('k \<times> 'v) list" where
  "mapSet k v [] = [(k, v)]"
| "mapSet k v (e # es) = (if fst e = k then (k, v) # es else e # mapSet k v es)"

definition mapHas :: "('k \<times> 'v) list \<Rightarrow> 'k \<Rightarrow> bool" where
  "mapHas m k = (map_of m k \<noteq> None)"

definition mapGet :: "('k \<times> 'v) list \<Rightarrow> 'k \<Rightarrow> 'v option" where
  "mapGet m k = map_of m k"

definition monthNames :: "string list" where
  "monthNames = [''January'', ''February'', ''March'', ''April'', ''May'', ''June'',
     ''July'', ''August'', ''September'', ''October'', ''November'', ''December'']"

text \<open>\<^verbatim>\<open>`${monthNames[i]}`\<close>: an index that is \<^verbatim>\<open>NaN\<close> or out of range reads \<^verbatim>\<open>undefined\<close>.\<close>

definition monthName :: "int option \<Rightarrow> string" where
  "monthName i =
     (case i of
        None \<Rightarrow> ''undefined''
      | Some m \<Rightarrow> if 0 \<le> m \<and> m < 12 then monthNames ! nat m else ''undefined'')"

text \<open>The label and the key the loop body computes for one photo.\<close>

definition classify :: "Host \<Rightarrow> int \<Rightarrow> Photo \<Rightarrow> string \<times> string" where
  "classify h now photo =
     (let today = newDateYMD h (getFullYear h (Some now)) (getMonth h (Some now))
                    (getDate h (Some now));
          yesterday = newDateOfNumber (num_sub (getTime today) (Some 86400000));
          thisWeekStart = newDateOfNumber
                    (num_sub (getTime today) (num_mul (getDay h today) (Some 86400000)));
          thisMonthStart = newDateYMD h (getFullYear h (Some now)) (getMonth h (Some now))
                    (Some 1);
          date = effectiveDate h photo;
          photoDay = newDateYMD h (getFullYear h date) (getMonth h date) (getDate h date)
      in
        if num_eq (getTime photoDay) (getTime today) then (''Today'', ''today'')
        else if num_eq (getTime photoDay) (getTime yesterday) then (''Yesterday'', ''yesterday'')
        else if num_ge photoDay thisWeekStart then (''This Week'', ''this-week'')
        else if num_ge photoDay thisMonthStart then (''This Month'', ''this-month'')
        else (monthName (getMonth h date) @ '' '' @ String (getFullYear h date),
              String (getFullYear h date) @ ''-'' @
                padStart (String (getMonth h date)) 2 (CHR ''0'')))"

text \<open>
  One iteration of the \<^verbatim>\<open>for\<close> loop over \<^verbatim>\<open>$filtered\<close>, on the pair of maps. The
  \<^verbatim>\<open>get\<close> follows a \<^verbatim>\<open>set\<close> of the same key when the key was absent, so it finds an array;
  \<^verbatim>\<open>push\<close> appends to the array the map holds.
\<close>

definition groupStep ::
  "Host \<Rightarrow> int \<Rightarrow> (string \<times> Photo list) list \<times> (string \<times> string) list \<Rightarrow> Photo \<Rightarrow>
   (string \<times> Photo list) list \<times> (string \<times> string) list" where
  "groupStep h now maps photo =
     (let (groupMap, groupLabels) = maps;
          (lbl, key) = classify h now photo;
          (groupMap, groupLabels) =
             (if \<not> mapHas groupMap key
              then (mapSet key [] groupMap, mapSet key lbl groupLabels)
              else (groupMap, groupLabels));
          groupMap = (case mapGet groupMap key of
                        Some arr \<Rightarrow> mapSet key (arr @ [photo]) groupMap
                      | None \<Rightarrow> groupMap)
      in (groupMap, groupLabels))"

definition groupedPhotos :: "Host \<Rightarrow> int \<Rightarrow> Photo list \<Rightarrow> Group list" where
  "groupedPhotos h now filtered =
     (let (groupMap, groupLabels) = foldl (groupStep h now) ([], []) filtered
      in map (\<lambda>(key, arr).
                \<lparr> label = (case mapGet groupLabels key of Some l \<Rightarrow> l | None \<Rightarrow> ''undefined''),
                  dateKey = key, group_photos = arr \<rparr>) groupMap)"

text \<open>The key of the group a photo falls into.\<close>

definition groupKey :: "Host \<Rightarrow> int \<Rightarrow> Photo \<Rightarrow> string" where
  "groupKey h now photo = snd (classify h now photo)"

text \<open>The keys of a list in the order of their first occurrence.\<close>

fun firstOccurrences :: "'a list \<Rightarrow> 'a list" where
  "firstOccurrences [] = []"
| "firstOccurrences (x # xs) = x # filter (\<lambda>y. y \<noteq> x) (firstOccurrences xs)"

section \<open>Operations on the stores\<close>

text \<open>
  \<^verbatim>\<open>loadAllPhotos\<close>. The two inner \<^verbatim>\<open>try\<close> blocks swallow the failure of their own call.
  \<^verbatim>\<open>get_photo_count\<close> and \<^verbatim>\<open>get_libraries\<close> take no argument, so each is its outcome.
\<close>

text \<open>\<^verbatim>\<open>page || []\<close> for a page that may be null.\<close>

definition orEmpty :: "'a list option \<Rightarrow> 'a list" where
  "orEmpty page = (case page of None \<Rightarrow> [] | Some l \<Rightarrow> l)"

definition loadAllPhotos ::
  "page_command \<Rightarrow> int response \<Rightarrow> SourceDirectory list option response \<Rightarrow> Store \<Rightarrow> Store" where
  "loadAllPhotos get_all_photos get_photo_count get_libraries st =
     (case get_all_photos PAGE_SIZE 0 of
        Inl err \<Rightarrow> st
      | Inr firstPage \<Rightarrow>
          (let st = st\<lparr>photos := orEmpty firstPage\<rparr>;
               st = st\<lparr>hasMorePhotos := (length (orEmpty firstPage) \<ge> PAGE_SIZE)\<rparr>;
               st = (case get_photo_count of
                       Inl err \<Rightarrow> st
                     | Inr cnt \<Rightarrow> st\<lparr>totalPhotoCount := cnt\<rparr>);
               st = (case get_libraries of
                       Inl err \<Rightarrow> st
                     | Inr None \<Rightarrow> st
                     | Inr (Some libs) \<Rightarrow> st\<lparr>sourceDirectories := libs\<rparr>)
           in st))"

text \<open>\<^verbatim>\<open>toggleFavorite\<close> returns the new store and the promised boolean.\<close>

definition toggleFavorite :: "(int \<Rightarrow> bool response) \<Rightarrow> int \<Rightarrow> Store \<Rightarrow> Store \<times> bool" where
  "toggleFavorite toggle_favorite photoId st =
     (case toggle_favorite photoId of
        Inl err \<Rightarrow> (st, False)
      | Inr isFav \<Rightarrow>
          (let st = st\<lparr>photos := map (\<lambda>p. if pid p = photoId then p\<lparr>isFavorite := isFav\<rparr> else p)
                                    (photos st)\<rparr>;
               st = st\<lparr>selectedPhoto :=
                         (case selectedPhoto st of
                            None \<Rightarrow> None
                          | Some p \<Rightarrow> if pid p = photoId then Some (p\<lparr>isFavorite := isFav\<rparr>)
                                      else Some p)\<rparr>
           in (st, isFav)))"

definition deletePhotos :: "(int list \<Rightarrow> unit response) \<Rightarrow> int list \<Rightarrow> Store \<Rightarrow> Store" where
  "deletePhotos soft_delete_photos photoIds st =
     (case soft_delete_photos photoIds of
        Inl err \<Rightarrow> st
      | Inr u \<Rightarrow>
          (let st = st\<lparr>photos := filter (\<lambda>p. \<not> List.member photoIds (pid p)) (photos st)\<rparr>;
               st = st\<lparr>selectedPhoto :=
                         (case selectedPhoto st of
                            None \<Rightarrow> None
                          | Some p \<Rightarrow> if List.member photoIds (pid p) then None else Some p)\<rparr>
           in st))"

definition toggleMultiSelect :: "Store \<Rightarrow> Store" where
  "toggleMultiSelect st =
     (let v = isMultiSelectMode st;
          st = (if v then st\<lparr>selectedPhotoIds := {}\<rparr> else st)
      in st\<lparr>isMultiSelectMode := \<not> v\<rparr>)"

definition clearSelection :: "Store \<Rightarrow> Store" where
  "clearSelection st = (st\<lparr>selectedPhotoIds := {}\<rparr>)\<lparr>isMultiSelectMode := False\<rparr>"

definition togglePhotoSelection :: "int \<Rightarrow> Store \<Rightarrow> Store" where
  "togglePhotoSelection photoId st =
     st\<lparr>selectedPhotoIds :=
          (let ids = selectedPhotoIds st in
           if photoId \<in> ids then ids - {photoId} else insert photoId ids)\<rparr>"

definition hardDeletePhotos ::
  "(int list \<Rightarrow> bool \<Rightarrow> unit response) \<Rightarrow> int list \<Rightarrow> bool \<Rightarrow> Store \<Rightarrow> Store" where
  "hardDeletePhotos hard_delete_photos photoIds deleteFromDisk st =
     (case hard_delete_photos photoIds deleteFromDisk of
        Inl err \<Rightarrow> st
      | Inr u \<Rightarrow>
          (let st = st\<lparr>photos := filter (\<lambda>p. \<not> List.member photoIds (pid p)) (photos st)\<rparr>;
               st = st\<lparr>selectedPhoto :=
                         (case selectedPhoto st of
                            None \<Rightarrow> None
                          | Some p \<Rightarrow> if List.member photoIds (pid p) then None else Some p)\<rparr>
           in clearSelection st))"

definition renamePhoto :: "(int \<Rightarrow> string \<Rightarrow> string response) \<Rightarrow> int \<Rightarrow> string \<Rightarrow> Store \<Rightarrow> Store" where
  "renamePhoto rename_photo photoId newFilename st =
     (case rename_photo photoId newFilename of
        Inl err \<Rightarrow> st
      | Inr newPath \<Rightarrow>
          (let st = st\<lparr>photos := map (\<lambda>p. if pid p = photoId
                                          then p\<lparr>filename := newFilename, path := newPath\<rparr>
                                          else p) (photos st)\<rparr>;
               st = st\<lparr>selectedPhoto :=
                         (case selectedPhoto st of
                            None \<Rightarrow> None
                          | Some p \<Rightarrow> if pid p = photoId
                                      then Some (p\<lparr>filename := newFilename, path := newPath\<rparr>)
                                      else Some p)\<rparr>
           in st))"

section \<open>A concrete host and concrete records\<close>

text \<open>
  The examples run on a host in the UTC time zone. Its \<open>Date_parse\<close> knows the date
  strings the examples use, all in the standard's own format, with the time values that
  format gives them, and returns an Invalid Date for anything else, the empty string
  among them. Its strings compare by character code and change case in ASCII; no example
  depends on either.
\<close>

definition exampleDates :: "(string \<times> int) list" where
  "exampleDates =
     [(''2023-03-10T09:00:00.000Z'', 1678438800000),
      (''2024-01-15T00:00:00.000Z'', 1705276800000),
      (''2024-05-31T23:59:59.999Z'', 1717199999999),
      (''2024-06-01T00:00:00.000Z'', 1717200000000),
      (''2024-06-20T08:30:00.000Z'', 1718872200000),
      (''2024-06-30T10:00:00.000Z'', 1719741600000),
      (''2024-07-01T00:00:00.000Z'', 1719792000000),
      (''2024-07-02T00:00:00.000Z'', 1719878400000)]"

fun compareCodes :: "string \<Rightarrow> string \<Rightarrow> int" where
  "compareCodes [] [] = 0"
| "compareCodes [] (d # t) = - 1"
| "compareCodes (c # s) [] = 1"
| "compareCodes (c # s) (d # t) =
     (if (of_char c :: nat) < of_char d then - 1
      else if (of_char d :: nat) < of_char c then 1
      else compareCodes s t)"

definition asciiLower :: "char \<Rightarrow> char" where
  "asciiLower c =
     (let n = (of_char c :: nat) in if 65 \<le> n \<and> n \<le> 90 then char_of (n + 32) else c)"

definition utcHost :: Host where
  "utcHost =
     \<lparr> Date_parse = map_of exampleDates, LocalTZA = (\<lambda>t isUTC. 0),
       localeCompare = compareCodes, toLowerCase = map asciiLower \<rparr>"

text \<open>The instant 2024-07-01T00:00:00.000Z, a Monday.\<close>

definition exampleNow :: int where
  "exampleNow = 1719792000000"

text \<open>A record with the given id, modification date and media type, and no \<^verbatim>\<open>takenAt\<close>.\<close>

definition photoAt :: "int \<Rightarrow> string \<Rightarrow> string \<Rightarrow> Photo" where
  "photoAt i modified mtype = (mkPhoto i)\<lparr>modifiedAt := modified, mediaType := mtype\<rparr>"



definition defaultFilters :: FilterState where
  "defaultFilters =
     \<lparr> selectedFolder = None, selectedYear = None, selectedMonth = None,
       selectedMediaTypes = [''photo'', ''video''] \<rparr>"

section \<open>Properties of the cache\<close>

lemma appendPage_lastN: "appendPage xs pg = lastN MAX_PHOTOS_IN_MEMORY (xs @ pg)"
  by (simp add: appendPage_def lastN_def Let_def)

lemma length_lastN: "length (lastN n xs) = min n (length xs)"
  by (simp add: lastN_def)

lemma lastN_append_lastN: "lastN n (lastN n xs @ ys) = lastN n (xs @ ys)"
proof (cases "length xs \<le> n")
  case True
  then show ?thesis by (simp add: lastN_def)
next
  case False
  then have "length xs + length ys - (length xs - n + n) + (length xs - n)
      = length xs + length ys - n"
    by arith
  with False show ?thesis by (simp add: lastN_def)
qed

lemma lastN_id: "length xs \<le> n \<Longrightarrow> lastN n xs = xs"
  by (simp add: lastN_def)

lemma loadMorePhotos_length:
  assumes "length (photos st) \<le> MAX_PHOTOS_IN_MEMORY"
  shows "length (photos (loadMorePhotos c st)) \<le> MAX_PHOTOS_IN_MEMORY"
  using assms
  by (simp add: loadMorePhotos_def Let_def appendPage_lastN length_lastN
      split: sum.splits option.splits)

lemma loadMoreSeq_length:
  "length (photos st) \<le> MAX_PHOTOS_IN_MEMORY \<Longrightarrow>
   length (photos (loadMoreSeq cs st)) \<le> MAX_PHOTOS_IN_MEMORY"
  by (induction cs arbitrary: st) (simp_all add: loadMorePhotos_length)

lemma loadMorePhotos_answering:
  assumes "\<not> isLoadingMore st" "hasMorePhotos st" "pg \<noteq> []"
  shows "loadMorePhotos (answering pg) st =
         st\<lparr>photos := appendPage (photos st) pg, hasMorePhotos := (length pg \<ge> PAGE_SIZE)\<rparr>"
  using assms by (simp add: loadMorePhotos_def answering_def Let_def)

lemma loadMoreSeq_answering:
  assumes "\<not> isLoadingMore st" "hasMorePhotos st"
    and "length (photos st) \<le> MAX_PHOTOS_IN_MEMORY"
    and "\<forall>pg \<in> set pages. pg \<noteq> []"
    and "\<forall>pg \<in> set (butlast pages). length pg \<ge> PAGE_SIZE"
  shows "photos (loadMoreSeq (map answering pages) st) =
         lastN MAX_PHOTOS_IN_MEMORY (photos st @ concat pages)"
  using assms
proof (induction pages arbitrary: st)
  case Nil
  then show ?case by (simp add: lastN_id)
next
  case (Cons pg rest)
  let ?st' = "loadMorePhotos (answering pg) st"
  have ne: "pg \<noteq> []" using Cons.prems(4) by simp
  have st': "?st' = st\<lparr>photos := appendPage (photos st) pg,
                        hasMorePhotos := (length pg \<ge> PAGE_SIZE)\<rparr>"
    using Cons.prems(1,2) ne by (rule loadMorePhotos_answering)
  show ?case
  proof (cases rest)
    case Nil
    then show ?thesis by (simp add: st' appendPage_lastN)
  next
    case (Cons pg' rest')
    then have full: "length pg \<ge> PAGE_SIZE" using Cons.prems(5) by simp
    have a: "\<not> isLoadingMore ?st'" using Cons.prems(1) by (simp add: st')
    have b: "hasMorePhotos ?st'" using full by (simp add: st')
    have c: "length (photos ?st') \<le> MAX_PHOTOS_IN_MEMORY"
      by (simp add: st' appendPage_lastN length_lastN)
    have d: "\<forall>q \<in> set rest. q \<noteq> []" using Cons.prems(4) by simp
    have e: "\<forall>q \<in> set (butlast rest). length q \<ge> PAGE_SIZE"
      using Cons.prems(5) Cons by simp
    have "photos (loadMoreSeq (map answering rest) ?st') =
          lastN MAX_PHOTOS_IN_MEMORY (photos ?st' @ concat rest)"
      using Cons.IH [OF a b c d e] .
    then show ?thesis
      by (simp add: st' appendPage_lastN lastN_append_lastN)
  qed
qed

lemma length_pageOf: "length (pageOf k) = PAGE_SIZE"
  by (simp add: pageOf_def)

lemma concat_pageOf:
  "concat (map pageOf [0..<n]) = map (\<lambda>i. mkPhoto (int i)) [0..<n * PAGE_SIZE]"
proof (induction n)
  case 0
  then show ?case by simp
next
  case (Suc n)
  have *: "[0..<n * PAGE_SIZE] @ [n * PAGE_SIZE..<n * PAGE_SIZE + PAGE_SIZE]
        = [0..<Suc n * PAGE_SIZE]"
    by (metis add.commute le_add1 mult_Suc upt_add_eq_append add_0)
  have "concat (map pageOf [0..<Suc n]) = concat (map pageOf [0..<n]) @ pageOf n"
    by simp
  also have "\<dots> = map (\<lambda>i. mkPhoto (int i))
       ([0..<n * PAGE_SIZE] @ [n * PAGE_SIZE..<n * PAGE_SIZE + PAGE_SIZE])"
    by (simp only: Suc map_append pageOf_def)
  finally show ?case by (simp only: *)
qed

lemma scenario_D_cache:
  "photos (loadMoreSeq (map answering (map pageOf [0..<25])) initialStore)
     = map (\<lambda>i. mkPhoto (int i)) [500..<2500]"
proof -
  have "photos (loadMoreSeq (map answering (map pageOf [0..<25])) initialStore)
        = lastN MAX_PHOTOS_IN_MEMORY (photos initialStore @ concat (map pageOf [0..<25]))"
    by (rule loadMoreSeq_answering)
       (auto simp: initialStore_def length_pageOf simp del: upt_Suc dest!: in_set_butlastD, auto simp: pageOf_def PAGE_SIZE_def)
  also have "\<dots> = lastN 2000 (map (\<lambda>i. mkPhoto (int i)) [0..<2500])"
    by (simp only: concat_pageOf) (simp add: initialStore_def MAX_PHOTOS_IN_MEMORY_def PAGE_SIZE_def)
  also have "\<dots> = map (\<lambda>i. mkPhoto (int i)) [500..<2500]"
    by (simp add: lastN_def drop_map del: upt_Suc)
  finally show ?thesis .
qed

text \<open>
  Claim C1 (cache eviction). Three facts about \<^verbatim>\<open>loadMorePhotos\<close>:
  \<^item> whatever the backends answer (pages of any length, null, rejections), a sequence of
    calls that starts with at most 2000 cached records ends with at most 2000;
  \<^item> when every call of the sequence appends (each page is non-empty, and every page but
    the last is full, so that \<^verbatim>\<open>hasMorePhotos\<close> stays true), the cache ends as the last
    2000 records of everything appended to it, in order: the earliest are dropped first;
  \<^item> scenario D: from the initial stores, 25 pages of 100 records with fetch-indices 0
    to 2499 leave 2000 records, those with fetch-indices 500 to 2499.
\<close>

theorem C1_cache_eviction:
  "(length (photos st) \<le> MAX_PHOTOS_IN_MEMORY \<longrightarrow>
      length (photos (loadMoreSeq cs st)) \<le> MAX_PHOTOS_IN_MEMORY)
   \<and> (\<not> isLoadingMore st \<and> hasMorePhotos st \<and> length (photos st) \<le> MAX_PHOTOS_IN_MEMORY
        \<and> (\<forall>pg \<in> set pages. pg \<noteq> []) \<and> (\<forall>pg \<in> set (butlast pages). length pg \<ge> PAGE_SIZE)
      \<longrightarrow> photos (loadMoreSeq (map answering pages) st)
            = lastN MAX_PHOTOS_IN_MEMORY (photos st @ concat pages))
   \<and> length (photos (loadMoreSeq (map answering (map pageOf [0..<25])) initialStore)) = 2000
   \<and> photos (loadMoreSeq (map answering (map pageOf [0..<25])) initialStore)
       = map (\<lambda>i. mkPhoto (int i)) [500..<2500]"
proof (intro conjI impI)
  show "length (photos (loadMoreSeq cs st)) \<le> MAX_PHOTOS_IN_MEMORY"
    if "length (photos st) \<le> MAX_PHOTOS_IN_MEMORY"
    using that by (rule loadMoreSeq_length)
  show "photos (loadMoreSeq (map answering pages) st)
          = lastN MAX_PHOTOS_IN_MEMORY (photos st @ concat pages)"
    if "\<not> isLoadingMore st \<and> hasMorePhotos st \<and> length (photos st) \<le> MAX_PHOTOS_IN_MEMORY
        \<and> (\<forall>pg \<in> set pages. pg \<noteq> []) \<and> (\<forall>pg \<in> set (butlast pages). length pg \<ge> PAGE_SIZE)"
    using that by (intro loadMoreSeq_answering) simp_all
  show "length (photos (loadMoreSeq (map answering (map pageOf [0..<25])) initialStore)) = 2000"
    by (simp only: scenario_D_cache length_map length_upt)
  show "photos (loadMoreSeq (map answering (map pageOf [0..<25])) initialStore)
          = map (\<lambda>i. mkPhoto (int i)) [500..<2500]"
    by (rule scenario_D_cache)
qed

theorem C1_cache_eviction_witness:
  "length (photos (loadMoreSeq [answering [mkPhoto 1], (\<lambda>limit offset. Inl ''offline'')]
                     initialStore)) \<le> MAX_PHOTOS_IN_MEMORY
   \<and> photos (loadMoreSeq (map answering [replicate 100 (mkPhoto 7), [mkPhoto 8]]) initialStore)
       = replicate 100 (mkPhoto 7) @ [mkPhoto 8]"
  using C1_cache_eviction [of initialStore
          "[answering [mkPhoto 1], (\<lambda>limit offset. Inl ''offline'')]"
          "[replicate 100 (mkPhoto 7), [mkPhoto 8]]"]
  by (simp add: initialStore_def lastN_def MAX_PHOTOS_IN_MEMORY_def PAGE_SIZE_def)

section \<open>Properties of pagination and of the mutating operations\<close>

text \<open>
  Claim C2 (pagination termination). After a page fetch that resolved, in
  \<^verbatim>\<open>loadAllPhotos\<close> and in a \<^verbatim>\<open>loadMorePhotos\<close> that passed its guard, \<^verbatim>\<open>hasMorePhotos\<close> is
  false exactly when the fetched page held fewer than \<open>PAGE_SIZE\<close> records; a null page
  counts as an empty one.
\<close>

theorem C2_pagination_termination:
  "(get_all_photos PAGE_SIZE 0 = Inr page \<longrightarrow>
      (\<not> hasMorePhotos (loadAllPhotos get_all_photos get_photo_count get_libraries st))
        = (length (orEmpty page) < PAGE_SIZE))
   \<and> (\<not> isLoadingMore st \<and> hasMorePhotos st \<and>
       get_more PAGE_SIZE (length (photos st)) = Inr page \<longrightarrow>
      (\<not> hasMorePhotos (loadMorePhotos get_more st)) = (length (orEmpty page) < PAGE_SIZE))"
  by (auto simp: loadAllPhotos_def loadMorePhotos_def Let_def orEmpty_def PAGE_SIZE_def
      split: sum.splits option.splits)

theorem C2_pagination_termination_witness:
  "hasMorePhotos (loadAllPhotos (answering (pageOf 0)) (Inr 240) (Inr None) initialStore)
   \<and> \<not> hasMorePhotos (loadMorePhotos (answering (replicate 40 (mkPhoto 3))) initialStore)"
  using C2_pagination_termination [where get_all_photos = "answering (pageOf 0)"
          and page = "Some (pageOf 0)" and get_photo_count = "Inr 240"
          and get_libraries = "Inr None" and st = initialStore and get_more = "answering []"]
        C2_pagination_termination [where get_all_photos = "answering []"
          and page = "Some (replicate 40 (mkPhoto 3))" and st = initialStore
          and get_more = "answering (replicate 40 (mkPhoto 3))"]
  by (simp add: answering_def orEmpty_def length_pageOf initialStore_def PAGE_SIZE_def)

text \<open>
  Claim C9 (pagination failure cleanup). When \<^verbatim>\<open>loadMorePhotos\<close> passes its guard and the
  page fetch is rejected, \<^verbatim>\<open>hasMorePhotos\<close> and the cache are what they were and
  \<^verbatim>\<open>isLoadingMore\<close> is false. The flag is false after every call that passed the guard,
  whatever the backend answered: the reset is in the \<^verbatim>\<open>finally\<close> block.
\<close>

theorem C9_pagination_failure_cleanup:
  "(\<not> isLoadingMore st \<and> hasMorePhotos st \<and>
      get_all_photos PAGE_SIZE (length (photos st)) = Inl err \<longrightarrow>
        hasMorePhotos (loadMorePhotos get_all_photos st) = hasMorePhotos st
      \<and> photos (loadMorePhotos get_all_photos st) = photos st
      \<and> \<not> isLoadingMore (loadMorePhotos get_all_photos st))
   \<and> (\<not> isLoadingMore st \<and> hasMorePhotos st \<longrightarrow>
        \<not> isLoadingMore (loadMorePhotos get_any st))"
  by (auto simp: loadMorePhotos_def Let_def split: sum.splits option.splits)

theorem C9_pagination_failure_cleanup_witness:
  "hasMorePhotos (loadMorePhotos (\<lambda>limit offset. Inl ''timeout'') initialStore)
   \<and> photos (loadMorePhotos (\<lambda>limit offset. Inl ''timeout'') initialStore) = []
   \<and> \<not> isLoadingMore (loadMorePhotos (\<lambda>limit offset. Inl ''timeout'') initialStore)
   \<and> \<not> isLoadingMore (loadMorePhotos (answering (pageOf 0)) initialStore)"
  using C9_pagination_failure_cleanup [where st = initialStore
          and get_all_photos = "\<lambda>limit offset. Inl ''timeout''" and err = "''timeout''"
          and get_any = "answering (pageOf 0)"]
  by (simp add: initialStore_def)

text \<open>
  Claim C8 (mutation atomicity). When the backend rejects the call, \<^verbatim>\<open>toggleFavorite\<close>,
  \<^verbatim>\<open>deletePhotos\<close>, \<^verbatim>\<open>renamePhoto\<close> and \<^verbatim>\<open>hardDeletePhotos\<close> return the stores exactly as
  they received them: the cache, \<^verbatim>\<open>selectedPhoto\<close> and everything else. The updates are
  in the branch of the resolved call only.
\<close>

theorem C8_mutation_atomicity:
  "(toggle_favorite photoId = Inl err \<longrightarrow>
      toggleFavorite toggle_favorite photoId st = (st, False))
   \<and> (soft_delete_photos photoIds = Inl err \<longrightarrow>
      deletePhotos soft_delete_photos photoIds st = st)
   \<and> (rename_photo photoId newFilename = Inl err \<longrightarrow>
      renamePhoto rename_photo photoId newFilename st = st)
   \<and> (hard_delete_photos photoIds deleteFromDisk = Inl err \<longrightarrow>
      hardDeletePhotos hard_delete_photos photoIds deleteFromDisk st = st)"
  by (simp add: toggleFavorite_def deletePhotos_def renamePhoto_def hardDeletePhotos_def)

theorem C8_mutation_atomicity_witness:
  "toggleFavorite (\<lambda>i. Inl ''locked'') 1 (initialStore\<lparr>photos := [mkPhoto 1]\<rparr>)
     = (initialStore\<lparr>photos := [mkPhoto 1]\<rparr>, False)
   \<and> deletePhotos (\<lambda>ids. Inl ''locked'') [1] (initialStore\<lparr>photos := [mkPhoto 1]\<rparr>)
     = initialStore\<lparr>photos := [mkPhoto 1]\<rparr>
   \<and> renamePhoto (\<lambda>i n. Inl ''locked'') 1 ''a.jpg'' (initialStore\<lparr>photos := [mkPhoto 1]\<rparr>)
     = initialStore\<lparr>photos := [mkPhoto 1]\<rparr>
   \<and> hardDeletePhotos (\<lambda>ids d. Inl ''locked'') [1] True (initialStore\<lparr>photos := [mkPhoto 1]\<rparr>)
     = initialStore\<lparr>photos := [mkPhoto 1]\<rparr>"
  using C8_mutation_atomicity [where toggle_favorite = "\<lambda>i. Inl ''locked''" and photoId = 1
          and err = "''locked''" and soft_delete_photos = "\<lambda>ids. Inl ''locked''"
          and photoIds = "[1]" and rename_photo = "\<lambda>i n. Inl ''locked''"
          and newFilename = "''a.jpg''" and hard_delete_photos = "\<lambda>ids d. Inl ''locked''"
          and deleteFromDisk = True and st = "initialStore\<lparr>photos := [mkPhoto 1]\<rparr>"]
  by simp

text \<open>
  Claim C10 (selection after a delete). A \<^verbatim>\<open>hardDeletePhotos\<close> whose call resolved leaves
  the selection set empty and multi-select mode off, whichever ids were selected and
  whichever were deleted. A \<^verbatim>\<open>deletePhotos\<close> whose call resolved leaves both as they were.
\<close>

theorem C10_selection_after_delete:
  "(hard_delete_photos photoIds deleteFromDisk = Inr u \<longrightarrow>
      selectedPhotoIds (hardDeletePhotos hard_delete_photos photoIds deleteFromDisk st) = {}
      \<and> \<not> isMultiSelectMode (hardDeletePhotos hard_delete_photos photoIds deleteFromDisk st))
   \<and> (soft_delete_photos photoIds = Inr u \<longrightarrow>
      selectedPhotoIds (deletePhotos soft_delete_photos photoIds st) = selectedPhotoIds st
      \<and> isMultiSelectMode (deletePhotos soft_delete_photos photoIds st) = isMultiSelectMode st)"
  by (simp add: hardDeletePhotos_def deletePhotos_def clearSelection_def Let_def)

theorem C10_selection_after_delete_witness:
  "selectedPhotoIds (hardDeletePhotos (\<lambda>ids d. Inr ()) [1] False
      (initialStore\<lparr>photos := [mkPhoto 1, mkPhoto 2], selectedPhotoIds := {1, 2},
                     isMultiSelectMode := True\<rparr>)) = {}
   \<and> \<not> isMultiSelectMode (hardDeletePhotos (\<lambda>ids d. Inr ()) [1] False
      (initialStore\<lparr>photos := [mkPhoto 1, mkPhoto 2], selectedPhotoIds := {1, 2},
                     isMultiSelectMode := True\<rparr>))
   \<and> selectedPhotoIds (deletePhotos (\<lambda>ids. Inr ()) [1]
      (initialStore\<lparr>photos := [mkPhoto 1, mkPhoto 2], selectedPhotoIds := {1, 2},
                     isMultiSelectMode := True\<rparr>)) = {1, 2}
   \<and> isMultiSelectMode (deletePhotos (\<lambda>ids. Inr ()) [1]
      (initialStore\<lparr>photos := [mkPhoto 1, mkPhoto 2], selectedPhotoIds := {1, 2},
                     isMultiSelectMode := True\<rparr>))"
  using C10_selection_after_delete [where hard_delete_photos = "\<lambda>ids d. Inr ()"
          and photoIds = "[1]" and deleteFromDisk = False and u = "()"
          and soft_delete_photos = "\<lambda>ids. Inr ()"
          and st = "initialStore\<lparr>photos := [mkPhoto 1, mkPhoto 2], selectedPhotoIds := {1, 2},
                     isMultiSelectMode := True\<rparr>"]
  by simp

section \<open>Calendar arithmetic\<close>

lemma MonthFromTime_range: "0 \<le> MonthFromTime t \<and> MonthFromTime t \<le> 11"
  by (simp add: MonthFromTime_def Let_def)

lemma MakeDay_of_fields:
  "MakeDay (YearFromTime t) (MonthFromTime t) (DateFromTime t + k) = Day t + k"
proof -
  have "MonthFromTime t div 12 = 0" "MonthFromTime t mod 12 = MonthFromTime t"
    using MonthFromTime_range [of t] by simp_all
  then show ?thesis
    by (simp add: MakeDay_def DateFromTime_def DayWithinYear_def InLeapYear_def Let_def)
qed

lemma MakeDate_Day: "MakeDate (Day t + k) (TimeWithinDay t) = t + k * msPerDay"
  by (simp add: MakeDate_def Day_def TimeWithinDay_def algebra_simps)

lemma recentsCutoff_eq:
  "recentsCutoff h now = TimeClip (UTC h (LocalTime h now - 30 * msPerDay))"
  using MakeDay_of_fields [of "LocalTime h now" "- 30"] MakeDate_Day [of "LocalTime h now" "- 30"]
  by (simp add: recentsCutoff_def setDate_def getDate_def num_sub_def Let_def)



section \<open>Evaluation on the concrete host\<close>

lemma photoAt_fields:
  "pid (photoAt i s m) = i" "mediaType (photoAt i s m) = m" "takenAt (photoAt i s m) = None"
  "modifiedAt (photoAt i s m) = s" "isFavorite (photoAt i s m) = False"
  by (simp_all add: photoAt_def mkPhoto_def)


lemma Date_parse_utcHost: "Date_parse utcHost s = map_of exampleDates s"
  by (simp add: utcHost_def)

lemma effectiveDate_photoAt: "effectiveDate utcHost (photoAt i s m) = map_of exampleDates s"
  by (simp add: effectiveDate_def takenOrModified_def photoAt_fields truthyString_def
      Date_parse_utcHost)


lemma exampleDates_lookup:
  "map_of exampleDates ''2023-03-10T09:00:00.000Z'' = Some 1678438800000"
  "map_of exampleDates ''2024-01-15T00:00:00.000Z'' = Some 1705276800000"
  "map_of exampleDates ''2024-05-31T23:59:59.999Z'' = Some 1717199999999"
  "map_of exampleDates ''2024-06-01T00:00:00.000Z'' = Some 1717200000000"
  "map_of exampleDates ''2024-06-20T08:30:00.000Z'' = Some 1718872200000"
  "map_of exampleDates ''2024-07-02T00:00:00.000Z'' = Some 1719878400000"
  "map_of exampleDates ''yesterday'' = None"
  "map_of exampleDates [] = None"
  by (simp_all add: exampleDates_def)

lemma recentsCutoff_utcHost:
  "\<bar>now - 2592000000\<bar> \<le> 8640000000000000 \<Longrightarrow>
   recentsCutoff utcHost now = Some (now - 2592000000)"
  by (simp add: recentsCutoff_eq TimeClip_def UTC_def LocalTime_def utcHost_def msPerDay_def)

lemma dayWithinYear_examples:
  "DayWithinYear 1678438800000 = 68" "InLeapYear 1678438800000 = 0"
  "DayWithinYear 1705276800000 = 14" "InLeapYear 1705276800000 = 1"
  "DayWithinYear 1717200000000 = 152" "InLeapYear 1717200000000 = 1"
  "DayWithinYear 1718872200000 = 171" "InLeapYear 1718872200000 = 1"
  "DayWithinYear 1719878400000 = 183" "InLeapYear 1719878400000 = 1"
  "DayWithinYear 1719792000000 = 182" "InLeapYear 1719792000000 = 1"
  by (simp_all add: DayWithinYear_def InLeapYear_def DaysInYear_def YearFromTime_def
      YearFromDay_def Day_def msPerDay_def DayFromYear_def Let_def)

lemma monthFromTime_examples:
  "MonthFromTime 1678438800000 = 2"
  "MonthFromTime 1705276800000 = 0"
  "MonthFromTime 1717200000000 = 5"
  "MonthFromTime 1718872200000 = 5"
  "MonthFromTime 1719878400000 = 6"
  "MonthFromTime 1719792000000 = 6"
  by (simp_all add: MonthFromTime_def dayWithinYear_examples)

lemma dateFromTime_examples:
  "DateFromTime 1678438800000 = 10"
  "DateFromTime 1705276800000 = 15"
  "DateFromTime 1717200000000 = 1"
  "DateFromTime 1718872200000 = 20"
  "DateFromTime 1719878400000 = 2"
  "DateFromTime 1719792000000 = 1"
  by (simp_all add: DateFromTime_def dayWithinYear_examples monthFromTime_examples
      monthStart_def)

lemma getFullYear_examples:
  "getFullYear utcHost (Some 1678438800000) = Some 2023"
  "getFullYear utcHost (Some 1705276800000) = Some 2024"
  "getFullYear utcHost (Some 1717200000000) = Some 2024"
  "getFullYear utcHost (Some 1718872200000) = Some 2024"
  "getFullYear utcHost (Some 1719878400000) = Some 2024"
  "getFullYear utcHost (Some 1719792000000) = Some 2024"
  by (simp_all add: getFullYear_def LocalTime_def utcHost_def YearFromTime_def
      YearFromDay_def Day_def msPerDay_def DayFromYear_def Let_def)

lemma getMonth_examples:
  "getMonth utcHost (Some 1678438800000) = Some 2"
  "getMonth utcHost (Some 1705276800000) = Some 0"
  "getMonth utcHost (Some 1717200000000) = Some 5"
  "getMonth utcHost (Some 1718872200000) = Some 5"
  "getMonth utcHost (Some 1719878400000) = Some 6"
  "getMonth utcHost (Some 1719792000000) = Some 6"
  by (simp_all add: getMonth_def LocalTime_def utcHost_def monthFromTime_examples)

lemma getDate_examples:
  "getDate utcHost (Some 1678438800000) = Some 10"
  "getDate utcHost (Some 1705276800000) = Some 15"
  "getDate utcHost (Some 1717200000000) = Some 1"
  "getDate utcHost (Some 1718872200000) = Some 20"
  "getDate utcHost (Some 1719878400000) = Some 2"
  "getDate utcHost (Some 1719792000000) = Some 1"
  by (simp_all add: getDate_def LocalTime_def utcHost_def dateFromTime_examples)

lemma getDay_examples:
  "getDay utcHost (Some 1719792000000) = Some 1"
  by (simp add: getDay_def LocalTime_def utcHost_def WeekDay_def Day_def msPerDay_def)

lemma newDateYMD_examples:
  "newDateYMD utcHost (Some 2024) (Some 6) (Some 1) = Some 1719792000000"
  "newDateYMD utcHost (Some 2024) (Some 6) (Some 2) = Some 1719878400000"
  "newDateYMD utcHost (Some 2024) (Some 5) (Some 1) = Some 1717200000000"
  "newDateYMD utcHost (Some 2023) (Some 2) (Some 10) = Some 1678406400000"
  by (simp_all add: newDateYMD_def TimeClip_def UTC_def utcHost_def MakeDate_def MakeDay_def
      DayFromYear_def DaysInYear_def monthStart_def msPerDay_def Let_def)

lemma String_examples:
  "String (Some 2023) = ''2023''" "String (Some 2024) = ''2024''"
  "padStart (String (Some 2)) 2 (CHR ''0'') = ''02''"
  "padStart (String (Some 5)) 2 (CHR ''0'') = ''05''"
  by code_simp+

lemma groupKey_examples:
  "groupKey utcHost exampleNow (photoAt i ''2023-03-10T09:00:00.000Z'' m) = ''2023-02''"
  "groupKey utcHost exampleNow (photoAt i ''2024-07-02T00:00:00.000Z'' m) = ''this-week''"
  "groupKey utcHost exampleNow (photoAt i ''2024-06-01T00:00:00.000Z'' m) = ''2024-05''"
  by (simp_all add: groupKey_def classify_def exampleNow_def effectiveDate_photoAt
      exampleDates_lookup getFullYear_examples getMonth_examples getDate_examples
      getDay_examples newDateYMD_examples String_examples getTime_def num_eq_def num_ge_def
      num_sub_def num_mul_def newDateOfNumber_def TimeClip_def Let_def)

lemmas stage_defs =
  filteredPhotos_def sourceStage_def sectionStage_def searchStage_def mediaTypeStage_def
  folderStage_def yearStage_def monthStage_def sortArray_def truthyString_def
  truthyNumber_def

section \<open>Properties of the filter pipeline\<close>

lemma mset_insertBy: "mset (insertBy cmp x ys) = add_mset x (mset ys)"
  by (induction ys) simp_all

lemma mset_sortArray: "mset (sortArray cmp xs) = mset xs"
  by (induction xs) (simp_all add: sortArray_def mset_insertBy)

lemma set_sortArray: "set (sortArray cmp xs) = set xs"
  by (metis mset_sortArray set_mset_mset)

lemma sourceStage_subset: "set (sourceStage sec src xs) \<subseteq> set xs"
  by (auto simp: sourceStage_def)

lemma sectionStage_subset: "set (sectionStage h now sec xs) \<subseteq> set xs"
  by (auto simp: sectionStage_def Let_def)

lemma searchStage_subset: "set (searchStage h q xs) \<subseteq> set xs"
  by (auto simp: searchStage_def Let_def)

lemma mediaTypeStage_subset: "set (mediaTypeStage sec fs xs) \<subseteq> set xs"
  by (auto simp: mediaTypeStage_def)

lemma folderStage_subset: "set (folderStage fs xs) \<subseteq> set xs"
  by (auto simp: folderStage_def)

lemma yearStage_subset: "set (yearStage h fs xs) \<subseteq> set xs"
  by (auto simp: yearStage_def)

lemma monthStage_subset: "set (monthStage h fs xs) \<subseteq> set xs"
  by (auto simp: monthStage_def)

lemma filteredPhotos_subset_section:
  "set (filteredPhotos h now cache fs q sk sec src)
     \<subseteq> set (sectionStage h now sec (sourceStage sec src cache))"
proof -
  have "set (filteredPhotos h now cache fs q sk sec src)
        \<subseteq> set (searchStage h q (sectionStage h now sec (sourceStage sec src cache)))"
    unfolding filteredPhotos_def Let_def set_sortArray
    using monthStage_subset yearStage_subset folderStage_subset mediaTypeStage_subset
    by (meson subset_trans)
  then show ?thesis using searchStage_subset by (meson subset_trans)
qed

lemma mediaTypeStage_Videos: "mediaTypeStage Videos fs xs = xs"
  by (simp add: mediaTypeStage_def)

lemma folderStage_types:
  "folderStage (fs\<lparr>selectedMediaTypes := types\<rparr>) xs = folderStage fs xs"
  by (simp add: folderStage_def)

lemma yearStage_types:
  "yearStage h (fs\<lparr>selectedMediaTypes := types\<rparr>) xs = yearStage h fs xs"
  by (simp add: yearStage_def)

lemma monthStage_types:
  "monthStage h (fs\<lparr>selectedMediaTypes := types\<rparr>) xs = monthStage h fs xs"
  by (simp add: monthStage_def)

lemma sectionStage_not_Recents:
  "sec \<noteq> Recents \<Longrightarrow> sectionStage h now sec xs = sectionStage h now' sec xs"
  by (simp add: sectionStage_def)

text \<open>
  Claim C5 (videos section). In the section \<^verbatim>\<open>videos\<close> every record of the output has
  media type \<^verbatim>\<open>video\<close>; the media-type stage is the identity there, and the output is the
  same for every value of \<^verbatim>\<open>selectedMediaTypes\<close>, \<^verbatim>\<open>['photo']\<close> included.
\<close>

theorem C5_videos_section:
  "(\<forall>p \<in> set (filteredPhotos h now cache filters searchQuery sortKey Videos activeSource).
       mediaType p = ''video'')
   \<and> mediaTypeStage Videos filters xs = xs
   \<and> filteredPhotos h now cache (filters\<lparr>selectedMediaTypes := types\<rparr>) searchQuery sortKey
        Videos activeSource
      = filteredPhotos h now cache filters searchQuery sortKey Videos activeSource"
proof (intro conjI ballI)
  fix p
  assume "p \<in> set (filteredPhotos h now cache filters searchQuery sortKey Videos activeSource)"
  then have "p \<in> set (sectionStage h now Videos (sourceStage Videos activeSource cache))"
    using filteredPhotos_subset_section by blast
  then show "mediaType p = ''video''"
    by (simp add: sectionStage_def)
next
  show "mediaTypeStage Videos filters xs = xs"
    by (simp add: mediaTypeStage_def)
next
  show "filteredPhotos h now cache (filters\<lparr>selectedMediaTypes := types\<rparr>) searchQuery sortKey
        Videos activeSource
      = filteredPhotos h now cache filters searchQuery sortKey Videos activeSource"
    by (simp add: filteredPhotos_def mediaTypeStage_Videos folderStage_types yearStage_types
        monthStage_types)
qed

text \<open>Scenario C: \<^verbatim>\<open>selectedMediaTypes = ['photo']\<close> in the section \<^verbatim>\<open>videos\<close>.\<close>

theorem C5_videos_section_witness:
  "filteredPhotos utcHost exampleNow
     [photoAt 1 ''2024-06-20T08:30:00.000Z'' ''photo'',
      photoAt 2 ''2024-01-15T00:00:00.000Z'' ''video'']
     (defaultFilters\<lparr>selectedMediaTypes := [''photo'']\<rparr>) [] DateDesc Videos None
   = [photoAt 2 ''2024-01-15T00:00:00.000Z'' ''video'']"
  using C5_videos_section [of utcHost exampleNow
      "[photoAt 1 ''2024-06-20T08:30:00.000Z'' ''photo'',
        photoAt 2 ''2024-01-15T00:00:00.000Z'' ''video'']"
      "defaultFilters\<lparr>selectedMediaTypes := [''photo'']\<rparr>" "[]" DateDesc None "[]"
      "[''photo'']"]
  by (simp add: filteredPhotos_def sourceStage_def sectionStage_def searchStage_def
      mediaTypeStage_def folderStage_def yearStage_def monthStage_def sortArray_def
      defaultFilters_def photoAt_def mkPhoto_def truthyString_def truthyNumber_def)

text \<open>
  Claim C3 (purity), as the code has it. The callback is a function of the host, the
  current instant and its six store inputs, so equal arguments give equal lists. Outside
  the section \<^verbatim>\<open>recents\<close> the current instant has no influence: at any two instants the
  output for the same six inputs is the same list.
\<close>

theorem C3_pipeline_inputs:
  "activeSection \<noteq> Recents \<longrightarrow>
     filteredPhotos h now cache filters searchQuery sortKey activeSection activeSource
   = filteredPhotos h now' cache filters searchQuery sortKey activeSection activeSource"
  by (simp add: filteredPhotos_def sectionStage_not_Recents [of activeSection h now _ now'])

theorem C3_pipeline_inputs_witness:
  "filteredPhotos utcHost 1719792000000 [photoAt 5 ''2024-06-20T08:30:00.000Z'' ''photo'']
      defaultFilters [] DateDesc All None
   = filteredPhotos utcHost 1725148800000 [photoAt 5 ''2024-06-20T08:30:00.000Z'' ''photo'']
      defaultFilters [] DateDesc All None"
  using C3_pipeline_inputs [of All utcHost 1719792000000
      "[photoAt 5 ''2024-06-20T08:30:00.000Z'' ''photo'']" defaultFilters "[]" DateDesc None
      1725148800000]
  by simp

text \<open>
  In the section \<^verbatim>\<open>recents\<close> the same six inputs give different outputs at different
  instants: a record of 20 June 2024 is listed on 1 July 2024 and not on 1 September 2024.
\<close>

theorem C3_recents_reads_clock:
  "filteredPhotos utcHost 1719792000000 [photoAt 5 ''2024-06-20T08:30:00.000Z'' ''photo'']
      defaultFilters [] DateDesc Recents None
     = [photoAt 5 ''2024-06-20T08:30:00.000Z'' ''photo'']
   \<and> filteredPhotos utcHost 1725148800000 [photoAt 5 ''2024-06-20T08:30:00.000Z'' ''photo'']
      defaultFilters [] DateDesc Recents None
     = []"
  by (simp add: stage_defs defaultFilters_def recentsCutoff_utcHost effectiveDate_photoAt
      exampleDates_lookup photoAt_fields num_ge_def)

text \<open>
  Claim C7 (recents window), as the code has it. In the section \<^verbatim>\<open>recents\<close> the section
  stage keeps exactly the records whose effective date parses and is not earlier than the
  cutoff. The cutoff is the instant whose local time lies 30 days of 24 hours before the
  local time of the current instant; on a host whose offset from UTC never changes that is
  the current instant minus 30 days. The boundary is inclusive, and there is no upper end.
  The effective date is \<^verbatim>\<open>takenAt\<close> when that is neither null nor empty, else \<^verbatim>\<open>modifiedAt\<close>.
\<close>

theorem C7_recents_window:
  "sectionStage h now Recents xs
     = filter (\<lambda>p. num_ge (effectiveDate h p)
                      (TimeClip (UTC h (LocalTime h now - 30 * msPerDay)))) xs
   \<and> ((\<forall>t b. LocalTZA h t b = z) \<and> \<bar>now - 30 * msPerDay\<bar> \<le> 8640000000000000 \<longrightarrow>
        sectionStage h now Recents xs
          = filter (\<lambda>p. case effectiveDate h p of None \<Rightarrow> False
                        | Some d \<Rightarrow> now - 30 * msPerDay \<le> d) xs)"
proof (intro conjI impI)
  show a: "sectionStage h now Recents xs
     = filter (\<lambda>p. num_ge (effectiveDate h p)
                      (TimeClip (UTC h (LocalTime h now - 30 * msPerDay)))) xs"
    by (simp add: sectionStage_def recentsCutoff_eq)
  assume "(\<forall>t b. LocalTZA h t b = z) \<and> \<bar>now - 30 * msPerDay\<bar> \<le> 8640000000000000"
  then have "TimeClip (UTC h (LocalTime h now - 30 * msPerDay)) = Some (now - 30 * msPerDay)"
    by (simp add: TimeClip_def UTC_def LocalTime_def)
  then show "sectionStage h now Recents xs
          = filter (\<lambda>p. case effectiveDate h p of None \<Rightarrow> False
                        | Some d \<Rightarrow> now - 30 * msPerDay \<le> d) xs"
    by (simp add: a num_ge_def split: option.splits cong: filter_cong)
qed

text \<open>
  On 1 July 2024, 00:00 UTC, a record dated 2 July 2024 passes the section stage of
  \<^verbatim>\<open>recents\<close>, although its date is after the current instant.
\<close>

theorem C7_recents_keeps_future:
  "sectionStage utcHost 1719792000000 Recents [photoAt 6 ''2024-07-02T00:00:00.000Z'' ''photo'']
     = [photoAt 6 ''2024-07-02T00:00:00.000Z'' ''photo'']
   \<and> effectiveDate utcHost (photoAt 6 ''2024-07-02T00:00:00.000Z'' ''photo'') = Some 1719878400000
   \<and> (1719792000000 :: int) < 1719878400000"
  by (simp add: sectionStage_def recentsCutoff_utcHost effectiveDate_photoAt
      exampleDates_lookup num_ge_def)

theorem C7_recents_window_witness:
  "sectionStage utcHost exampleNow Recents
     [photoAt 3 ''2024-06-01T00:00:00.000Z'' ''photo'',
      photoAt 4 ''2024-05-31T23:59:59.999Z'' ''photo'',
      photoAt 9 ''yesterday'' ''photo'']
   = [photoAt 3 ''2024-06-01T00:00:00.000Z'' ''photo'']"
proof -
  let ?xs = "[photoAt 3 ''2024-06-01T00:00:00.000Z'' ''photo'',
      photoAt 4 ''2024-05-31T23:59:59.999Z'' ''photo'',
      photoAt 9 ''yesterday'' ''photo'']"
  have "sectionStage utcHost exampleNow Recents ?xs
        = filter (\<lambda>p. case effectiveDate utcHost p of None \<Rightarrow> False
                      | Some d \<Rightarrow> exampleNow - 30 * msPerDay \<le> d) ?xs"
    using C7_recents_window [of utcHost exampleNow ?xs 0, THEN conjunct2]
    by (simp add: utcHost_def exampleNow_def msPerDay_def)
  also have "\<dots> = [photoAt 3 ''2024-06-01T00:00:00.000Z'' ''photo'']"
    by (simp add: exampleNow_def msPerDay_def effectiveDate_photoAt exampleDates_lookup)
  finally show ?thesis .
qed










section \<open>Properties of the grouping\<close>

lemma set_firstOccurrences: "set (firstOccurrences xs) = set xs"
  by (induction xs) auto

lemma distinct_firstOccurrences: "distinct (firstOccurrences xs)"
  by (induction xs) (auto simp: set_firstOccurrences)

lemma firstOccurrences_snoc:
  "firstOccurrences (xs @ [x]) =
     (if x \<in> set xs then firstOccurrences xs else firstOccurrences xs @ [x])"
  by (induction xs) auto

lemma mapSet_absent: "k \<notin> fst ` set m \<Longrightarrow> mapSet k v m = m @ [(k, v)]"
  by (induction m) auto

lemma mapSet_tabulated:
  "distinct ks \<Longrightarrow> k \<in> set ks \<Longrightarrow>
   mapSet k v (map (\<lambda>j. (j, g j)) ks) = map (\<lambda>j. (j, if j = k then v else g j)) ks"
  by (induction ks) auto

lemma map_of_tabulated: "map_of (map (\<lambda>j. (j, g j)) ks) k = (if k \<in> set ks then Some (g k) else None)"
  by (induction ks) auto

lemma mapSet_last:
  "k \<notin> fst ` set m \<Longrightarrow> mapSet k v (m @ [(k, w)]) = m @ [(k, v)]"
  by (induction m) auto

lemma groupStep_fst:
  "fst (groupStep h now (gm, gl) p) =
     (let key = groupKey h now p;
          gm' = (if \<not> mapHas gm key then mapSet key [] gm else gm)
      in case mapGet gm' key of Some arr \<Rightarrow> mapSet key (arr @ [p]) gm' | None \<Rightarrow> gm')"
  by (cases "classify h now p") (simp add: groupStep_def groupKey_def Let_def)

lemma groupStep_tabulated:
  fixes h now
  defines "key \<equiv> groupKey h now"
  defines "G \<equiv> \<lambda>xs. map (\<lambda>k. (k, filter (\<lambda>p. key p = k) xs)) (firstOccurrences (map key xs))"
  shows "fst (groupStep h now (G xs, gl) p) = G (xs @ [p])"
proof (cases "key p \<in> set (map key xs)")
  case True
  let ?ks = "firstOccurrences (map key xs)"
  have in_ks: "key p \<in> set ?ks" using True by (simp add: set_firstOccurrences)
  have has: "mapHas (G xs) (key p)"
    using in_ks by (simp add: mapHas_def G_def map_of_tabulated)
  have get: "mapGet (G xs) (key p) = Some (filter (\<lambda>q. key q = key p) xs)"
    using in_ks by (simp add: mapGet_def G_def map_of_tabulated)
  have "fst (groupStep h now (G xs, gl) p)
        = mapSet (key p) (filter (\<lambda>q. key q = key p) xs @ [p]) (G xs)"
    using has get by (simp add: groupStep_fst key_def [symmetric] Let_def)
  also have "\<dots> = map (\<lambda>j. (j, if j = key p then filter (\<lambda>q. key q = key p) xs @ [p]
                                  else filter (\<lambda>q. key q = j) xs)) ?ks"
    unfolding G_def using in_ks by (intro mapSet_tabulated distinct_firstOccurrences)
  also have "\<dots> = map (\<lambda>j. (j, filter (\<lambda>q. key q = j) (xs @ [p]))) ?ks"
    by (rule map_cong) auto
  also have "\<dots> = G (xs @ [p])"
    using True by (simp add: G_def firstOccurrences_snoc)
  finally show ?thesis .
next
  case False
  let ?ks = "firstOccurrences (map key xs)"
  have notin: "key p \<notin> set ?ks" using False by (simp add: set_firstOccurrences)
  have nokey: "key p \<notin> fst ` set (G xs)"
    using notin by (auto simp: G_def)
  have nohas: "\<not> mapHas (G xs) (key p)"
    using notin by (simp add: mapHas_def G_def map_of_tabulated)
  have set1: "mapSet (key p) [] (G xs) = G xs @ [(key p, [])]"
    using nokey by (rule mapSet_absent)
  have get: "mapGet (G xs @ [(key p, [])]) (key p) = Some []"
    using notin by (simp add: mapGet_def G_def map_of_tabulated map_add_def)
  have set2: "mapSet (key p) [p] (G xs @ [(key p, [])]) = G xs @ [(key p, [p])]"
    using nokey by (rule mapSet_last)
  have "fst (groupStep h now (G xs, gl) p) = G xs @ [(key p, [p])]"
    using nohas by (simp add: groupStep_fst key_def [symmetric] Let_def set1 get set2)
  also have "\<dots> = G (xs @ [p])"
  proof -
    let ?F = "\<lambda>j. (j, filter (\<lambda>q. key q = j) (xs @ [p]))"
    have a: "map ?F ?ks = G xs"
      unfolding G_def using notin by (intro map_cong) auto
    have b: "filter (\<lambda>q. key q = key p) xs = []"
      using False by (auto simp: filter_empty_conv image_iff)
    have c: "firstOccurrences (map key (xs @ [p])) = ?ks @ [key p]"
      using False by (simp add: firstOccurrences_snoc)
    have "G (xs @ [p]) = map ?F (?ks @ [key p])"
      unfolding G_def c ..
    also have "\<dots> = map ?F ?ks @ [?F (key p)]"
      by (simp only: map_append list.map)
    also have "\<dots> = G xs @ [(key p, [p])]"
      by (simp only: a) (simp add: b)
    finally show ?thesis by simp
  qed
  finally show ?thesis .
qed

lemma foldl_groupStep_fst:
  "fst (foldl (groupStep h now) ([], []) xs)
   = map (\<lambda>k. (k, filter (\<lambda>p. groupKey h now p = k) xs))
         (firstOccurrences (map (groupKey h now) xs))"
proof (induction xs rule: rev_induct)
  case Nil
  then show ?case by simp
next
  case (snoc x xs)
  obtain gm gl where st: "foldl (groupStep h now) ([], []) xs = (gm, gl)"
    by (cases "foldl (groupStep h now) ([], []) xs")
  with snoc have gm: "gm = map (\<lambda>k. (k, filter (\<lambda>p. groupKey h now p = k) xs))
         (firstOccurrences (map (groupKey h now) xs))" by simp
  show ?case
    by (simp add: st gm groupStep_tabulated)
qed

lemma groupedPhotos_keys:
  "map dateKey (groupedPhotos h now xs) = firstOccurrences (map (groupKey h now) xs)"
proof -
  obtain gm gl where st: "foldl (groupStep h now) ([], []) xs = (gm, gl)"
    by (cases "foldl (groupStep h now) ([], []) xs")
  have "gm = fst (foldl (groupStep h now) ([], []) xs)" by (simp add: st)
  then have gm: "gm = map (\<lambda>k. (k, filter (\<lambda>p. groupKey h now p = k) xs))
         (firstOccurrences (map (groupKey h now) xs))"
    by (simp only: foldl_groupStep_fst)
  show ?thesis
    by (simp add: groupedPhotos_def st gm comp_def)
qed

lemma groupedPhotos_records:
  "map group_photos (groupedPhotos h now xs)
   = map (\<lambda>k. filter (\<lambda>p. groupKey h now p = k) xs) (firstOccurrences (map (groupKey h now) xs))"
proof -
  obtain gm gl where st: "foldl (groupStep h now) ([], []) xs = (gm, gl)"
    by (cases "foldl (groupStep h now) ([], []) xs")
  have "gm = fst (foldl (groupStep h now) ([], []) xs)" by (simp add: st)
  then have gm: "gm = map (\<lambda>k. (k, filter (\<lambda>p. groupKey h now p = k) xs))
         (firstOccurrences (map (groupKey h now) xs))"
    by (simp only: foldl_groupStep_fst)
  show ?thesis
    by (simp add: groupedPhotos_def st gm comp_def)
qed

lemma mset_concat_buckets:
  "distinct ks \<Longrightarrow>
   mset (concat (map (\<lambda>k. filter (\<lambda>p. f p = k) xs) ks)) = mset (filter (\<lambda>p. f p \<in> set ks) xs)"
proof (induction ks)
  case Nil
  then show ?case by simp
next
  case (Cons k ks)
  have "mset (filter (\<lambda>p. f p = k) xs) + mset (filter (\<lambda>p. f p \<in> set ks) xs)
        = mset (filter (\<lambda>p. f p = k \<or> f p \<in> set ks) xs)"
    using Cons.prems by (induction xs) auto
  with Cons show ?case by simp
qed

lemma mset_groupedPhotos:
  "mset (concat (map group_photos (groupedPhotos h now xs))) = mset xs"
proof -
  have "filter (\<lambda>p. groupKey h now p \<in> set (firstOccurrences (map (groupKey h now) xs))) xs = xs"
    by (simp add: set_firstOccurrences)
  then show ?thesis
    by (simp add: groupedPhotos_records mset_concat_buckets distinct_firstOccurrences)
qed

text \<open>
  Claim C4 (grouping completeness). For every list \<^verbatim>\<open>$filtered\<close>:
  \<^item> the records of all groups together are, as a multiset, the records of the list: each
    occurrence of a record is in one group and in no other;
  \<^item> the keys of the groups are the keys of the records in the order in which the list
    first meets them, and no key comes twice;
  \<^item> the records of the group with key \<open>k\<close> are the records of the list with key \<open>k\<close>, in
    the order of the list.
\<close>

theorem C4_grouping_completeness:
  "mset (concat (map group_photos (groupedPhotos h now filtered))) = mset filtered
   \<and> map dateKey (groupedPhotos h now filtered)
       = firstOccurrences (map (groupKey h now) filtered)
   \<and> distinct (map dateKey (groupedPhotos h now filtered))
   \<and> map group_photos (groupedPhotos h now filtered)
       = map (\<lambda>k. filter (\<lambda>p. groupKey h now p = k) filtered)
             (map dateKey (groupedPhotos h now filtered))"
proof (intro conjI)
  show "mset (concat (map group_photos (groupedPhotos h now filtered))) = mset filtered"
    by (rule mset_groupedPhotos)
  show "map dateKey (groupedPhotos h now filtered)
       = firstOccurrences (map (groupKey h now) filtered)"
    by (rule groupedPhotos_keys)
  show "distinct (map dateKey (groupedPhotos h now filtered))"
    by (simp only: groupedPhotos_keys distinct_firstOccurrences)
  show "map group_photos (groupedPhotos h now filtered)
       = map (\<lambda>k. filter (\<lambda>p. groupKey h now p = k) filtered)
             (map dateKey (groupedPhotos h now filtered))"
    by (simp only: groupedPhotos_keys groupedPhotos_records)
qed

text \<open>
  On 1 July 2024: two records of March 2023 with one of 2 July 2024 and one of 1 June 2024
  between them give three groups, in the order of first encounter.
\<close>

theorem C4_grouping_completeness_witness:
  "map dateKey (groupedPhotos utcHost exampleNow
     [photoAt 1 ''2023-03-10T09:00:00.000Z'' ''photo'',
      photoAt 6 ''2024-07-02T00:00:00.000Z'' ''photo'',
      photoAt 3 ''2024-06-01T00:00:00.000Z'' ''photo'',
      photoAt 10 ''2023-03-10T09:00:00.000Z'' ''video''])
   = [''2023-02'', ''this-week'', ''2024-05'']
   \<and> map (map pid) (map group_photos (groupedPhotos utcHost exampleNow
     [photoAt 1 ''2023-03-10T09:00:00.000Z'' ''photo'',
      photoAt 6 ''2024-07-02T00:00:00.000Z'' ''photo'',
      photoAt 3 ''2024-06-01T00:00:00.000Z'' ''photo'',
      photoAt 10 ''2023-03-10T09:00:00.000Z'' ''video'']))
   = [[1, 10], [6], [3]]"
proof -
  let ?xs = "[photoAt 1 ''2023-03-10T09:00:00.000Z'' ''photo'',
      photoAt 6 ''2024-07-02T00:00:00.000Z'' ''photo'',
      photoAt 3 ''2024-06-01T00:00:00.000Z'' ''photo'',
      photoAt 10 ''2023-03-10T09:00:00.000Z'' ''video'']"
  have keys: "firstOccurrences (map (groupKey utcHost exampleNow) ?xs)
        = [''2023-02'', ''this-week'', ''2024-05'']"
    by (simp add: groupKey_examples)
  have a: "map dateKey (groupedPhotos utcHost exampleNow ?xs)
        = [''2023-02'', ''this-week'', ''2024-05'']"
    using C4_grouping_completeness [of utcHost exampleNow ?xs, THEN conjunct2, THEN conjunct1]
    by (simp only: keys)
  have b: "map group_photos (groupedPhotos utcHost exampleNow ?xs)
        = map (\<lambda>k. filter (\<lambda>p. groupKey utcHost exampleNow p = k) ?xs)
            [''2023-02'', ''this-week'', ''2024-05'']"
    using C4_grouping_completeness [of utcHost exampleNow ?xs, THEN conjunct2, THEN conjunct2,
        THEN conjunct2]
    by (simp only: a)
  have c: "map (map pid) (map (\<lambda>k. filter (\<lambda>p. groupKey utcHost exampleNow p = k) ?xs)
            [''2023-02'', ''this-week'', ''2024-05'']) = [[1, 10], [6], [3]]"
    by (simp add: groupKey_examples photoAt_fields)
  show ?thesis by (simp only: a b c simp_thms)
qed

end
